theory Spec2Isabelle
  imports Main "HOL-Library.Sublist"
begin

section \<open>JavaScript strings and values\<close>

text \<open>
  Strings are lists of characters. \<open>str_includes s p\<close> is \<open>s.includes(p)\<close>:
  \<open>p\<close> occurs in \<open>s\<close> as a contiguous run; \<open>endsWith s p\<close> is \<open>s.endsWith(p)\<close>.
\<close>

fun str_includes :: "string \<Rightarrow> string \<Rightarrow> bool" where
  "str_includes [] p = (p = [])"
| "str_includes (c # cs) p = (prefix p (c # cs) \<or> str_includes cs p)"

definition endsWith :: "string \<Rightarrow> string \<Rightarrow> bool" where
  "endsWith s p = suffix p s"

definition newline :: char where
  "newline = CHR 0x0A"

text \<open>\<open>s.split('\n')\<close>: the empty string splits into one empty line.\<close>

fun split_nl :: "string \<Rightarrow> string list" where
  "split_nl [] = [[]]"
| "split_nl (c # cs) =
     (if c = newline then [] # split_nl cs
      else (case split_nl cs of [] \<Rightarrow> [[c]] | l # ls \<Rightarrow> (c # l) # ls))"

text \<open>\<open>lines.join('\n')\<close>.\<close>

fun join_nl :: "string list \<Rightarrow> string" where
  "join_nl [] = []"
| "join_nl [l] = l"
| "join_nl (l # m # ls) = l @ newline # join_nl (m # ls)"

datatype jsval =
    JUndefined
  | JNull
  | JBool bool
  | JNum int
  | JStr string
  | JObj "(string \<times> jsval) list"

text \<open>Truthiness of a value, as \<open>if (v)\<close> and \<open>a && b\<close> test it.\<close>

fun truthy :: "jsval \<Rightarrow> bool" where
  "truthy JUndefined = False"
| "truthy JNull = False"
| "truthy (JBool b) = b"
| "truthy (JNum n) = (n \<noteq> 0)"
| "truthy (JStr s) = (s \<noteq> [])"
| "truthy (JObj fs) = True"

text \<open>An error object: its \<open>code\<close> and \<open>message\<close> properties (\<open>None\<close> is undefined).\<close>

record jserr =
  code :: "string option"
  message :: "string option"

section \<open>Platform, arch and version spoofing\<close>

text \<open>The markers of \<open>isSystemCall\<close> in linux-loader.js, in the order of the source.\<close>

definition TRUSTED_MARKERS :: "string list" where
  "TRUSTED_MARKERS =
     [''node:internal'', ''internal/modules'', ''node:electron'', ''electron/js2c'',
      ''electron.asar'', ''linux-loader.js'', ''frame-fix-wrapper'']"

definition isSystemCall :: "string \<Rightarrow> bool" where
  "isSystemCall stack \<longleftrightarrow>
     str_includes stack ''node:internal'' \<or>
     str_includes stack ''internal/modules'' \<or>
     str_includes stack ''node:electron'' \<or>
     str_includes stack ''electron/js2c'' \<or>
     str_includes stack ''electron.asar'' \<or>
     str_includes stack ''linux-loader.js'' \<or>
     str_includes stack ''frame-fix-wrapper''"


text \<open>
  \<open>new Error().stack || ''\<close> followed by \<open>.split('\n').slice(2).join('\n')\<close>:
  the captured stack (\<open>None\<close> when the property is undefined) without its
  first two lines, which are the error header and the accessor's own frame.
\<close>

definition callerFrames :: "string option \<Rightarrow> string" where
  "callerFrames captured =
     (let stack = (case captured of None \<Rightarrow> [] | Some s \<Rightarrow> s)
      in join_nl (drop 2 (split_nl stack)))"









section \<open>fs.rename and fs.renameSync with the EXDEV fallback\<close>

text \<open>
  The primitives of Node's \<open>fs\<close> module that the patched functions call are
  parameters, over any file-system state \<open>'fs\<close>. A synchronous primitive
  returns the error it throws (\<open>None\<close> when it returns normally) and the
  state it leaves; an asynchronous one returns the error it passes to its
  callback (\<open>None\<close> for \<open>null\<close>). \<open>pipeStreams\<close> stands for
  \<open>createReadStream(oldPath)\<close>, \<open>createWriteStream(newPath)\<close> and
  \<open>readStream.pipe(writeStream)\<close>: it returns the events the two streams
  emit, in order.
\<close>

datatype stream_event = ReadError jserr | WriteError jserr | Close

record 'fs fs_api =
  originalRenameSync :: "string \<Rightarrow> string \<Rightarrow> 'fs \<Rightarrow> jserr option \<times> 'fs"
  copyFileSync :: "string \<Rightarrow> string \<Rightarrow> 'fs \<Rightarrow> jserr option \<times> 'fs"
  unlinkSync :: "string \<Rightarrow> 'fs \<Rightarrow> jserr option \<times> 'fs"
  originalRename :: "string \<Rightarrow> string \<Rightarrow> 'fs \<Rightarrow> jserr option \<times> 'fs"
  pipeStreams :: "string \<Rightarrow> string \<Rightarrow> 'fs \<Rightarrow> stream_event list \<times> 'fs"
  unlink :: "string \<Rightarrow> 'fs \<Rightarrow> jserr option \<times> 'fs"


text \<open>
  The handlers that \<open>fs.rename\<close> attaches to the two streams, run on the
  events in order. Each call of \<open>callback\<close> is recorded with its argument.
  On \<open>close\<close> the source is unlinked and the callback gets \<open>null\<close>, whatever
  \<open>unlinkErr\<close> is.
\<close>

fun on_stream_events :: "'fs fs_api \<Rightarrow> string \<Rightarrow> stream_event list \<Rightarrow> 'fs \<Rightarrow> jserr option list \<times> 'fs" where
  "on_stream_events api oldPath [] s = ([], s)"
| "on_stream_events api oldPath (ReadError e # evs) s =
     (case on_stream_events api oldPath evs s of (calls, s') \<Rightarrow> (Some e # calls, s'))"
| "on_stream_events api oldPath (WriteError e # evs) s =
     (case on_stream_events api oldPath evs s of (calls, s') \<Rightarrow> (Some e # calls, s'))"
| "on_stream_events api oldPath (Close # evs) s =
     (case unlink api oldPath s of
        (unlinkErr, s1) \<Rightarrow>
          (case on_stream_events api oldPath evs s1 of (calls, s') \<Rightarrow> (None # calls, s')))"

text \<open>
  \<open>fs.rename\<close>: the result is the list of calls made to \<open>callback\<close> (each
  with the error passed, \<open>None\<close> for \<open>null\<close>) and the state left behind.
\<close>

definition rename :: "'fs fs_api \<Rightarrow> string \<Rightarrow> string \<Rightarrow> 'fs \<Rightarrow> jserr option list \<times> 'fs" where
  "rename api oldPath newPath s =
     (case originalRename api oldPath newPath s of
        (Some err, s1) \<Rightarrow>
          if code err = Some ''EXDEV'' then
            (case pipeStreams api oldPath newPath s1 of
               (evs, s2) \<Rightarrow> on_stream_events api oldPath evs s2)
          else ([Some err], s1)
      | (None, s1) \<Rightarrow> ([None], s1))"

text \<open>
  An in-memory file system (a map from paths to contents) with the usual
  meaning of copy and unlink, to state what the fallback leaves on disk. The
  move primitive \<open>mv\<close> and the asynchronous unlink \<open>ul\<close> stay parameters, so that
  a run can be forced to fail.
\<close>

type_synonym memfs = "string \<rightharpoonup> string"

definition ENOENT :: jserr where
  "ENOENT = \<lparr>code = Some ''ENOENT'', message = Some ''no such file or directory''\<rparr>"

definition mem_copyFile :: "string \<Rightarrow> string \<Rightarrow> memfs \<Rightarrow> jserr option \<times> memfs" where
  "mem_copyFile src dst s =
     (case s src of None \<Rightarrow> (Some ENOENT, s) | Some c \<Rightarrow> (None, s(dst \<mapsto> c)))"

definition mem_unlink :: "string \<Rightarrow> memfs \<Rightarrow> jserr option \<times> memfs" where
  "mem_unlink p s =
     (case s p of None \<Rightarrow> (Some ENOENT, s) | Some c \<Rightarrow> (None, s(p := None)))"


definition mem_pipe :: "string \<Rightarrow> string \<Rightarrow> memfs \<Rightarrow> stream_event list \<times> memfs" where
  "mem_pipe src dst s =
     (case s src of
        None \<Rightarrow> ([ReadError ENOENT], s(dst \<mapsto> []))
      | Some c \<Rightarrow> ([Close], s(dst \<mapsto> c)))"

definition mem_api ::
  "(string \<Rightarrow> string \<Rightarrow> memfs \<Rightarrow> jserr option \<times> memfs) \<Rightarrow>
   (string \<Rightarrow> memfs \<Rightarrow> jserr option \<times> memfs) \<Rightarrow> memfs fs_api" where
  "mem_api mv ul =
     \<lparr>originalRenameSync = mv, copyFileSync = mem_copyFile, unlinkSync = mem_unlink,
      originalRename = mv, pipeStreams = mem_pipe, unlink = ul\<rparr>"

text \<open>A move primitive that always fails with the given error and changes nothing.\<close>

definition failing_mv :: "jserr \<Rightarrow> string \<Rightarrow> string \<Rightarrow> memfs \<Rightarrow> jserr option \<times> memfs" where
  "failing_mv e src dst s = (Some e, s)"

text \<open>An unlink that always fails with the given error and changes nothing.\<close>

definition failing_unlink :: "jserr \<Rightarrow> string \<Rightarrow> memfs \<Rightarrow> jserr option \<times> memfs" where
  "failing_unlink e p s = (Some e, s)"

definition EXDEV :: jserr where
  "EXDEV = \<lparr>code = Some ''EXDEV'', message = Some ''cross-device link not permitted''\<rparr>"

definition EPERM :: jserr where
  "EPERM = \<lparr>code = Some ''EPERM'', message = Some ''operation not permitted''\<rparr>"

section \<open>Module interception\<close>

text \<open>
  What a load returns: an object, known by its reference, a primitive value,
  or the fresh empty object \<open>{}\<close>. Objects are truthy.
\<close>

datatype modval = ModObject nat | ModPrimitive jsval | ModEmptyObject

fun mod_truthy :: "modval \<Rightarrow> bool" where
  "mod_truthy (ModObject r) = True"
| "mod_truthy (ModPrimitive v) = truthy v"
| "mod_truthy ModEmptyObject = True"

text \<open>The three variables of the loader: \<open>None\<close> is \<open>null\<close>.\<close>

record loader_state =
  swiftStubCache :: "modval option"
  loadingStub :: bool
  patchedElectron :: "nat option"

text \<open>
  The host's side, over any state \<open>'w\<close> of the module system and the disk:
  \<open>fs.existsSync\<close>, the original \<open>Module._load\<close> (which throws or returns the
  loaded module), \<open>delete require.cache[p]\<close>, and the loader's directory.
\<close>

record 'w node_env =
  existsSync :: "string \<Rightarrow> 'w \<Rightarrow> bool"
  originalLoad :: "string \<Rightarrow> 'w \<Rightarrow> (jserr + modval) \<times> 'w"
  uncache :: "string \<Rightarrow> 'w \<Rightarrow> 'w"
  RESOURCES_DIR :: string

definition STUB_PATH :: "'w node_env \<Rightarrow> string" where
  "STUB_PATH env = RESOURCES_DIR env @ ''/stubs/@ant/claude-swift/js/index.js''"

text \<open>\<open>if (swiftStubCache) return swiftStubCache;\<close>: the cached module, when it is truthy.\<close>

definition cached_stub :: "loader_state \<Rightarrow> modval option" where
  "cached_stub st =
     (case swiftStubCache st of
        None \<Rightarrow> None
      | Some m \<Rightarrow> if mod_truthy m then Some m else None)"

text \<open>
  \<open>loadSwiftStub\<close>: \<open>loadingStub\<close> is set around the original load and
  cleared in \<open>finally\<close>, so it is clear in the state returned; the cache is
  assigned only when the load returns.
\<close>

definition loadSwiftStub ::
  "'w node_env \<Rightarrow> loader_state \<Rightarrow> 'w \<Rightarrow> (jserr + modval) \<times> loader_state \<times> 'w" where
  "loadSwiftStub env st w =
     (case cached_stub st of
        Some m \<Rightarrow> (Inr m, st, w)
      | None \<Rightarrow>
          if \<not> existsSync env (STUB_PATH env) w then
            (Inl \<lparr>code = None, message = Some (''Swift stub not found: '' @ STUB_PATH env)\<rparr>,
             st, w)
          else
            (case originalLoad env (STUB_PATH env) (uncache env (STUB_PATH env) w) of
               (Inl e, w') \<Rightarrow> (Inl e, st\<lparr>loadingStub := False\<rparr>, w')
             | (Inr m', w') \<Rightarrow>
                 (Inr m', st\<lparr>swiftStubCache := Some m', loadingStub := False\<rparr>, w')))"

text \<open>
  The wrapped \<open>Module._load\<close>. While \<open>loadingStub\<close> is set (only inside the
  original load of the stub) every request goes to the original loader.
\<close>

definition Module_load ::
  "'w node_env \<Rightarrow> string \<Rightarrow> loader_state \<Rightarrow> 'w \<Rightarrow> (jserr + modval) \<times> loader_state \<times> 'w" where
  "Module_load env request st w =
     (if loadingStub st then
        (case originalLoad env request w of (r, w') \<Rightarrow> (r, st, w'))
      else if str_includes request ''swift_addon'' \<and> endsWith request ''.node'' then
        loadSwiftStub env st w
      else if str_includes request ''claude-native-binding'' \<and> endsWith request ''.node'' then
        (Inr ModEmptyObject, st, w)
      else
        (case (if request = ''electron'' then patchedElectron st else None) of
           Some proxy \<Rightarrow> (Inr (ModObject proxy), st, w)
         | None \<Rightarrow> (case originalLoad env request w of (r, w') \<Rightarrow> (r, st, w'))))"

text \<open>A sequence of load requests, one after the other; the results in order.\<close>

fun load_requests ::
  "'w node_env \<Rightarrow> string list \<Rightarrow> loader_state \<Rightarrow> 'w \<Rightarrow> (jserr + modval) list \<times> loader_state \<times> 'w" where
  "load_requests env [] st w = ([], st, w)"
| "load_requests env (r # rs) st w =
     (case Module_load env r st w of
        (res, st1, w1) \<Rightarrow>
          (case load_requests env rs st1 w1 of (ress, st2, w2) \<Rightarrow> (res # ress, st2, w2)))"

text \<open>The state of the loader when it starts.\<close>

definition initial_loader_state :: loader_state where
  "initial_loader_state = \<lparr>swiftStubCache = None, loadingStub = False, patchedElectron = None\<rparr>"

section \<open>BrowserWindow constructor wrapping\<close>





section \<open>IPC handler interception\<close>

text \<open>
  A handler is an async function of its arguments: the promise it returns
  resolves, rejects (a synchronous throw inside \<open>await\<close> is the same), or
  never settles.
\<close>

datatype outcome = Resolved jsval | Rejected jserr | Pending

type_synonym handler = "jsval list \<Rightarrow> outcome"

definition supported :: jsval where
  "supported = JObj [(''status'', JStr ''supported'')]"

definition unsupported :: "string \<Rightarrow> jsval" where
  "unsupported reason = JObj [(''status'', JStr ''unsupported''), (''reason'', JStr reason)]"

definition getSupportedFeatures_override :: handler where
  "getSupportedFeatures_override args = Resolved (JObj
     [(''nativeQuickEntry'', unsupported ''linux''),
      (''quickEntryDictation'', unsupported ''linux''),
      (''customQuickEntryDictationShortcut'', unsupported ''linux''),
      (''plushRaccoon'', supported),
      (''quietPenguin'', supported),
      (''louderPenguin'', supported),
      (''chillingSlothEnterprise'', supported),
      (''chillingSlothFeat'', supported),
      (''chillingSlothLocal'', supported),
      (''yukonSilver'', supported),
      (''yukonSilverGems'', supported),
      (''desktopTopBar'', supported),
      (''desktopVoiceDictation'', unsupported ''linux'')])"

definition getCoworkFeatureState_override :: handler where
  "getCoworkFeatureState_override args = Resolved (JObj
     [(''enabled'', JBool True), (''status'', JStr ''supported''), (''reason'', JNull)])"

definition getYukonSilverStatus_override :: handler where
  "getYukonSilverStatus_override args = Resolved (JObj [(''status'', JStr ''supported'')])"

definition getFeatureFlags_override :: handler where
  "getFeatureFlags_override args = Resolved (JObj
     [(''yukonSilver'', JBool True), (''cowork'', JBool True), (''localAgentMode'', JBool True)])"

text \<open>The two policy tables, as the entries of the object literals in order.\<close>

definition FORCE_OVERRIDES :: "(string \<times> handler) list" where
  "FORCE_OVERRIDES =
     [(''AppFeatures_$_getSupportedFeatures'', getSupportedFeatures_override),
      (''AppFeatures_$_getCoworkFeatureState'', getCoworkFeatureState_override),
      (''AppFeatures_$_getYukonSilverStatus'', getYukonSilverStatus_override),
      (''AppFeatures_$_getFeatureFlags'', getFeatureFlags_override)]"

definition ERROR_FALLBACKS :: "(string \<times> handler) list" where
  "ERROR_FALLBACKS =
     [(''ClaudeVM_$_download'', \<lambda>args. Resolved (JObj
         [(''status'', JStr ''ready''), (''downloaded'', JBool True), (''progress'', JNum 100)])),
      (''ClaudeVM_$_getDownloadStatus'', \<lambda>args. Resolved (JObj
         [(''status'', JStr ''ready''), (''downloaded'', JBool True), (''progress'', JNum 100),
          (''version'', JStr ''linux-native-1.0.0'')])),
      (''ClaudeVM_$_getRunningStatus'', \<lambda>args. Resolved (JObj
         [(''running'', JBool True), (''connected'', JBool True), (''status'', JStr ''connected'')])),
      (''ClaudeVM_$_start'', \<lambda>args. Resolved (JObj
         [(''started'', JBool True), (''status'', JStr ''running'')])),
      (''ClaudeVM_$_stop'', \<lambda>args. Resolved (JObj [(''stopped'', JBool True)])),
      (''ClaudeVM_$_getSupportStatus'', \<lambda>args. Resolved (JObj [(''status'', JStr ''supported'')])),
      (''ClaudeCode_$_prepare'', \<lambda>args. Resolved (JObj
         [(''ready'', JBool True), (''status'', JStr ''ready'')])),
      (''Account_$_setAccountDetails'', \<lambda>args. Resolved (JObj [(''success'', JBool True)])),
      (''QuickEntry_$_setRecentChats'', \<lambda>args. Resolved (JObj [(''success'', JBool True)]))]"

text \<open>
  \<open>for (const [pattern, v] of Object.entries(table)) if (channel.includes(pattern)) ...\<close>:
  the value of the first entry whose pattern occurs in the channel name.
\<close>

fun first_match :: "(string \<times> 'a) list \<Rightarrow> string \<Rightarrow> 'a option" where
  "first_match [] channel = None"
| "first_match ((pattern, v) # entries) channel =
     (if str_includes channel pattern then Some v else first_match entries channel)"

text \<open>\<open>try { return await appHandler(...args); } catch (e) { return await fallback(...args); }\<close>\<close>

definition safeHandler :: "handler \<Rightarrow> handler \<Rightarrow> handler" where
  "safeHandler appHandler fallback args =
     (case appHandler args of
        Resolved v \<Rightarrow> Resolved v
      | Rejected e \<Rightarrow> fallback args
      | Pending \<Rightarrow> Pending)"

text \<open>
  The wrapped \<open>ipcMain.handle\<close>; \<open>origHandle\<close> is Electron's own, and its
  result is returned.
\<close>

definition ipcMain_handle :: "(string \<Rightarrow> handler \<Rightarrow> 'r) \<Rightarrow> string \<Rightarrow> handler \<Rightarrow> 'r" where
  "ipcMain_handle origHandle channel handler =
     (case first_match FORCE_OVERRIDES channel of
        Some override \<Rightarrow> origHandle channel override
      | None \<Rightarrow>
          (case first_match ERROR_FALLBACKS channel of
             Some fallback \<Rightarrow> origHandle channel (safeHandler handler fallback)
           | None \<Rightarrow> origHandle channel handler))"

text \<open>
  The wrapped \<open>ipcMain.removeHandler\<close>, on the state \<open>'s\<close> of Electron's
  registry: returning without a call leaves the registry as it is.
\<close>

definition ipcMain_removeHandler :: "(string \<Rightarrow> 's \<Rightarrow> 's) \<Rightarrow> string \<Rightarrow> 's \<Rightarrow> 's" where
  "ipcMain_removeHandler origRemoveHandler channel reg =
     (if list_ex (\<lambda>pattern. str_includes channel pattern) (map fst FORCE_OVERRIDES) then reg
      else origRemoveHandler channel reg)"

text \<open>The same two wrappers on \<open>webContents.ipc\<close>, installed for each new webContents.\<close>

definition webContents_ipc_handle :: "(string \<Rightarrow> handler \<Rightarrow> 'r) \<Rightarrow> string \<Rightarrow> handler \<Rightarrow> 'r" where
  "webContents_ipc_handle origWcHandle channel handler =
     (case first_match FORCE_OVERRIDES channel of
        Some override \<Rightarrow> origWcHandle channel override
      | None \<Rightarrow>
          (case first_match ERROR_FALLBACKS channel of
             Some fallback \<Rightarrow> origWcHandle channel (safeHandler handler fallback)
           | None \<Rightarrow> origWcHandle channel handler))"

definition webContents_ipc_removeHandler :: "(string \<Rightarrow> 's \<Rightarrow> 's) \<Rightarrow> string \<Rightarrow> 's \<Rightarrow> 's" where
  "webContents_ipc_removeHandler origWcRemove channel reg =
     (if list_ex (\<lambda>pattern. str_includes channel pattern) (map fst FORCE_OVERRIDES) then reg
      else origWcRemove channel reg)"

text \<open>
  A handler registry to run the wrappers on: a map from channel names to
  handlers, with registration and removal as map update and deletion.
\<close>

type_synonym registry = "string \<rightharpoonup> handler"

definition reg_handle :: "string \<Rightarrow> handler \<Rightarrow> registry \<Rightarrow> registry" where
  "reg_handle channel h reg = reg(channel \<mapsto> h)"

definition reg_removeHandler :: "string \<Rightarrow> registry \<Rightarrow> registry" where
  "reg_removeHandler channel reg = reg(channel := None)"

section \<open>The uncaughtException guard\<close>

text \<open>
  The guard either logs the message and returns (the process goes on) or
  throws the error again, which ends the process.
\<close>

datatype guard_result = Suppressed string | Rethrown jserr

definition uncaughtException_handler :: "jserr \<Rightarrow> guard_result" where
  "uncaughtException_handler error =
     (case message error of
        None \<Rightarrow> Rethrown error
      | Some m \<Rightarrow>
          if m \<noteq> [] \<and>
             (str_includes m ''is not a function'' \<or> str_includes m ''No handler registered'')
          then Suppressed m
          else Rethrown error)"

section \<open>Concrete inputs\<close>


definition demo_trusted_frames :: "string list" where
  "demo_trusted_frames =
     [''    at Object.<anonymous> (node:internal/process/pre_execution:12:3)'',
      ''    at main (/opt/app/index.js:1:1)'']"

definition demo_guest_frames :: "string list" where
  "demo_guest_frames =
     [''    at checkPlatform (/opt/app/.vite/build/index.js:10:20)'',
      ''    at main (/opt/app/.vite/build/index.js:1:1)'']"


definition demo_override_channel :: string where
  "demo_override_channel = ''$eipc_message$_3f2a9c_$_claude.web_$_AppFeatures_$_getSupportedFeatures''"



definition demo_plain_channel :: string where
  "demo_plain_channel = ''$eipc_message$_3f2a9c_$_claude.web_$_Window_$_close''"

definition demo_guest_handler :: handler where
  "demo_guest_handler args = Resolved (JStr ''guest'')"


definition demo_src :: string where
  "demo_src = ''/tmp/claude/vm.img''"

definition demo_dst :: string where
  "demo_dst = ''/home/user/.config/Claude/vm.img''"

definition demo_fs :: memfs where
  "demo_fs = [demo_src \<mapsto> ''rootfs'']"





definition api_cross_device_no_unlink :: "memfs fs_api" where
  "api_cross_device_no_unlink = mem_api (failing_mv EXDEV) (failing_unlink EPERM)"

definition demo_copied_fs :: memfs where
  "demo_copied_fs = demo_fs(demo_dst \<mapsto> ''rootfs'')"

definition demo_env :: "nat node_env" where
  "demo_env =
     \<lparr>existsSync = (\<lambda>p w. True),
      originalLoad = (\<lambda>p w. (Inr (ModObject w), Suc w)),
      uncache = (\<lambda>p w. w),
      RESOURCES_DIR = ''/opt/claude/resources''\<rparr>"

definition demo_loaded_state :: loader_state where
  "demo_loaded_state = \<lparr>swiftStubCache = Some (ModObject 0), loadingStub = False, patchedElectron = None\<rparr>"



definition demo_no_handler_error :: jserr where
  "demo_no_handler_error = \<lparr>code = None, message = Some ''Error: No handler registered for list''\<rparr>"

definition demo_missing_handler_error :: jserr where
  "demo_missing_handler_error = \<lparr>code = None, message = Some ''missing handler: x not a function''\<rparr>"

definition demo_other_error :: jserr where
  "demo_other_error = \<lparr>code = Some ''ENOSPC'', message = Some ''no space left on device''\<rparr>"

section \<open>Lemmas on strings\<close>

lemma str_includes_sublist: "str_includes s p \<longleftrightarrow> sublist p s"
  by (induction s) (auto simp: sublist_Cons_right)

text \<open>
  A run of characters without the separator \<open>c\<close> lies on one side of it.
\<close>

lemma sublist_sep:
  assumes "c \<notin> set p" "p \<noteq> []"
  shows "sublist p (a @ c # b) \<longleftrightarrow> sublist p a \<or> sublist p b"
proof
  assume "sublist p (a @ c # b)"
  then obtain ps ss where eq: "a @ c # b = ps @ p @ ss" by (auto simp: sublist_def)
  then consider us where "a = ps @ us" "us @ c # b = p @ ss"
    | us where "a @ us = ps" "c # b = us @ p @ ss"
    by (auto simp: append_eq_append_conv2)
  then show "sublist p a \<or> sublist p b"
  proof cases
    case 1
    from 1(2) consider vs where "us = p @ vs" | vs where "us @ vs = p" "c # b = vs @ ss"
      by (auto simp: append_eq_append_conv2)
    then show ?thesis
    proof cases
      case 1
      then show ?thesis using \<open>a = ps @ us\<close> by (auto simp: sublist_def)
    next
      case 2
      show ?thesis
      proof (cases vs)
        case Nil
        then have "a = ps @ p" using 2 \<open>a = ps @ us\<close> by simp
        then show ?thesis by simp
      next
        case (Cons v vs')
        then have "c \<in> set p" using 2 by auto
        then show ?thesis using assms by simp
      qed
    qed
  next
    case 2
    show ?thesis
    proof (cases us)
      case Nil
      then have "c # b = p @ ss" using 2 by simp
      then have "c \<in> set p" using assms(2) by (cases p) auto
      then show ?thesis using assms by simp
    next
      case (Cons u us')
      then have "b = us' @ p @ ss" using 2 by simp
      then show ?thesis by (auto simp: sublist_def)
    qed
  qed
next
  assume "sublist p a \<or> sublist p b"
  then show "sublist p (a @ c # b)"
    by (metis sublist_append sublist_Cons_right)
qed

lemma sublist_join_nl:
  assumes "newline \<notin> set p" "p \<noteq> []"
  shows "sublist p (join_nl fs) \<longleftrightarrow> (\<exists>f\<in>set fs. sublist p f)"
  using assms
proof (induction fs rule: join_nl.induct)
  case 1 then show ?case by simp
next
  case (2 l) then show ?case by simp
next
  case (3 l m ls)
  then show ?case by (simp add: sublist_sep)
qed

lemma split_nl_not_Nil: "split_nl s \<noteq> []"
  by (induction s) (auto split: list.splits)

text \<open>Joining the lines of a string gives the string back.\<close>

lemma join_nl_split_nl: "join_nl (split_nl s) = s"
proof (induction s)
  case Nil then show ?case by simp
next
  case (Cons c cs)
  obtain l ls where sp: "split_nl cs = l # ls"
    using split_nl_not_Nil by (cases "split_nl cs") auto
  show ?case
  proof (cases "c = newline")
    case True
    then show ?thesis using Cons sp by simp
  next
    case False
    then show ?thesis using Cons sp by (cases ls) auto
  qed
qed

lemma isSystemCall_markers:
  "isSystemCall s \<longleftrightarrow> (\<exists>m\<in>set TRUSTED_MARKERS. str_includes s m)"
  by (simp add: isSystemCall_def TRUSTED_MARKERS_def)

lemma markers_no_newline: "m \<in> set TRUSTED_MARKERS \<Longrightarrow> newline \<notin> set m \<and> m \<noteq> []"
  by (auto simp: TRUSTED_MARKERS_def newline_def)

text \<open>The lines of a stack have no newline, so the classifier works line by line.\<close>

lemma split_nl_no_newline: "f \<in> set (split_nl s) \<Longrightarrow> newline \<notin> set f"
proof (induction s arbitrary: f)
  case Nil
  then show ?case by simp
next
  case (Cons c cs)
  obtain l ls where sp: "split_nl cs = l # ls"
    using split_nl_not_Nil by (cases "split_nl cs") auto
  show ?case
  proof (cases "c = newline")
    case True
    then show ?thesis using Cons sp by auto
  next
    case False
    then have "f = c # l \<or> f \<in> set ls" using Cons.prems sp by simp
    then show ?thesis using Cons.IH False sp by auto
  qed
qed

lemma isSystemCall_lines:
  "isSystemCall s \<longleftrightarrow> (\<exists>f\<in>set (split_nl s). \<exists>m\<in>set TRUSTED_MARKERS. str_includes f m)"
proof -
  have "isSystemCall (join_nl (split_nl s)) \<longleftrightarrow>
          (\<exists>m\<in>set TRUSTED_MARKERS. \<exists>f\<in>set (split_nl s). sublist m f)"
    by (simp add: isSystemCall_markers str_includes_sublist sublist_join_nl markers_no_newline)
  then show ?thesis
    by (auto simp: join_nl_split_nl str_includes_sublist)
qed





section \<open>Lemmas on the policy tables\<close>


lemma first_match_Some_iff:
  "(\<exists>v. first_match t ch = Some v) \<longleftrightarrow> (\<exists>e\<in>set t. str_includes ch (fst e))"
  by (induction t ch rule: first_match.induct) auto


lemma first_match_in: "first_match t ch = Some v \<Longrightarrow> \<exists>p. (p, v) \<in> set t \<and> str_includes ch p"
  by (induction t ch rule: first_match.induct) (auto split: if_splits)


section \<open>Lemmas on the file-system model\<close>

lemma mem_api_simps [simp]:
  "originalRenameSync (mem_api mv ul) = mv"
  "copyFileSync (mem_api mv ul) = mem_copyFile"
  "unlinkSync (mem_api mv ul) = mem_unlink"
  "originalRename (mem_api mv ul) = mv"
  "pipeStreams (mem_api mv ul) = mem_pipe"
  "unlink (mem_api mv ul) = ul"
  by (simp_all add: mem_api_def)

lemma demo_paths_differ: "demo_src \<noteq> demo_dst"
  by (simp add: demo_src_def demo_dst_def)

section \<open>Lemmas on the module loader\<close>

lemma loadSwiftStub_cached:
  "swiftStubCache st = Some m \<Longrightarrow> mod_truthy m \<Longrightarrow> loadSwiftStub env st w = (Inr m, st, w)"
  by (simp add: loadSwiftStub_def cached_stub_def)

text \<open>Between requests \<open>loadingStub\<close> is clear.\<close>

lemma Module_load_not_loading:
  assumes "\<not> loadingStub st" and "Module_load env request st w = (res, st', w')"
  shows "\<not> loadingStub st'"
  using assms
  by (auto simp: Module_load_def loadSwiftStub_def
      split: if_splits option.splits prod.splits sum.splits)

lemma load_requests_not_loading:
  assumes "\<not> loadingStub st" and "load_requests env reqs st w = (ress, st', w')"
  shows "\<not> loadingStub st'"
  using assms
proof (induction reqs arbitrary: st w ress st' w')
  case Nil
  then show ?case by simp
next
  case (Cons r rs)
  obtain res sa wa where step: "Module_load env r st w = (res, sa, wa)"
    by (cases "Module_load env r st w") auto
  obtain rr sb wb where rest: "load_requests env rs sa wa = (rr, sb, wb)"
    by (cases "load_requests env rs sa wa") auto
  from Cons.prems(2) step rest have "st' = sb" by simp
  with Cons.IH [OF Module_load_not_loading [OF Cons.prems(1) step] rest] show ?case by simp
qed

lemma Module_load_keeps_cache:
  assumes "swiftStubCache st = Some m" "mod_truthy m" "\<not> loadingStub st"
    and "Module_load env request st w = (res, st', w')"
  shows "swiftStubCache st' = Some m \<and> \<not> loadingStub st'"
  using assms
  by (auto simp: Module_load_def loadSwiftStub_cached split: if_splits option.splits prod.splits)

lemma load_requests_keep_cache:
  assumes "swiftStubCache st = Some m" "mod_truthy m" "\<not> loadingStub st"
    and "load_requests env reqs st w = (ress, st', w')"
  shows "swiftStubCache st' = Some m \<and> \<not> loadingStub st'"
  using assms
proof (induction reqs arbitrary: st w ress st' w')
  case Nil
  then show ?case by simp
next
  case (Cons r rs)
  obtain res sa wa where step: "Module_load env r st w = (res, sa, wa)"
    by (cases "Module_load env r st w") auto
  obtain rr sb wb where rest: "load_requests env rs sa wa = (rr, sb, wb)"
    by (cases "load_requests env rs sa wa") auto
  from Module_load_keeps_cache [OF Cons.prems(1-3) step]
  have inv: "swiftStubCache sa = Some m" "\<not> loadingStub sa" by auto
  from Cons.prems(4) step rest have "st' = sb" "w' = wb" by simp_all
  with Cons.IH [OF inv(1) Cons.prems(2) inv(2) rest] show ?case by simp
qed

lemma demo_first_load:
  "Module_load demo_env ''swift_addon.node'' initial_loader_state 0 = (Inr (ModObject 0), demo_loaded_state, 1)"
  by (simp add: Module_load_def loadSwiftStub_def cached_stub_def initial_loader_state_def
      demo_env_def endsWith_def suffix_to_prefix demo_loaded_state_def)

lemma demo_later_loads:
  "load_requests demo_env [''nativeWidget.bin'', ''swift_addon.node''] demo_loaded_state 1
     = ([Inr (ModObject 1), Inr (ModObject 0)], demo_loaded_state, 2)"
  by (simp add: Module_load_def loadSwiftStub_def cached_stub_def demo_env_def endsWith_def
      suffix_to_prefix demo_loaded_state_def)

section \<open>Claims\<close>

text \<open>
  C5. The classifier on a stack description made of frames (the lines of the
  stack text): it answers trusted exactly when some frame contains one of
  the fixed markers, so guest when no frame contains any; the empty
  description and an unavailable stack are guest.
\<close>

theorem isSystemCall_classifies_frames:
  assumes "\<forall>f\<in>set frames. newline \<notin> set f"
  shows "(isSystemCall (join_nl frames) \<longleftrightarrow>
            (\<exists>f\<in>set frames. \<exists>m\<in>set TRUSTED_MARKERS. str_includes f m)) \<and>
         \<not> isSystemCall (join_nl []) \<and>
         \<not> isSystemCall (callerFrames None)"
proof -
  have "isSystemCall (join_nl frames) \<longleftrightarrow>
          (\<exists>m\<in>set TRUSTED_MARKERS. \<exists>f\<in>set frames. sublist m f)"
    by (auto simp: isSystemCall_markers str_includes_sublist sublist_join_nl markers_no_newline)
  then have "isSystemCall (join_nl frames) \<longleftrightarrow>
          (\<exists>f\<in>set frames. \<exists>m\<in>set TRUSTED_MARKERS. str_includes f m)"
    by (auto simp: str_includes_sublist)
  moreover have "\<not> isSystemCall (join_nl [])"
    by (simp add: isSystemCall_def)
  moreover have "\<not> isSystemCall (callerFrames None)"
    by (simp add: isSystemCall_def callerFrames_def)
  ultimately show ?thesis by blast
qed

theorem isSystemCall_classifies_frames_witness:
  "isSystemCall (join_nl demo_trusted_frames) \<and>
   (\<exists>f\<in>set demo_trusted_frames. \<exists>m\<in>set TRUSTED_MARKERS. str_includes f m) \<and>
   \<not> isSystemCall (join_nl demo_guest_frames) \<and>
   \<not> (\<exists>f\<in>set demo_guest_frames. \<exists>m\<in>set TRUSTED_MARKERS. str_includes f m)"
proof -
  have h1: "\<forall>f\<in>set demo_trusted_frames. newline \<notin> set f"
    by (simp add: demo_trusted_frames_def newline_def)
  have h2: "\<forall>f\<in>set demo_guest_frames. newline \<notin> set f"
    by (simp add: demo_guest_frames_def newline_def)
  have m1: "\<exists>f\<in>set demo_trusted_frames. \<exists>m\<in>set TRUSTED_MARKERS. str_includes f m"
    by (simp add: demo_trusted_frames_def TRUSTED_MARKERS_def)
  have m2: "\<not> (\<exists>f\<in>set demo_guest_frames. \<exists>m\<in>set TRUSTED_MARKERS. str_includes f m)"
    by (simp add: demo_guest_frames_def TRUSTED_MARKERS_def)
  show ?thesis
    using h1 h2 m1 m2 isSystemCall_classifies_frames [OF h1] isSystemCall_classifies_frames [OF h2]
    by blast
qed









text \<open>
  C4. For a channel that contains a key of \<open>FORCE_OVERRIDES\<close>, the wrapped
  removal leaves the registry as it is, on both surfaces and however often
  it is called, so after a registration and any number of removals the
  registry is what registering the replacement made it. For any other
  channel the wrapped removal is the original removal.
\<close>

theorem removeHandler_keeps_overrides:
  "((\<exists>pattern\<in>set (map fst FORCE_OVERRIDES). str_includes channel pattern) \<longrightarrow>
      ipcMain_removeHandler origRemoveHandler channel reg = reg \<and>
      webContents_ipc_removeHandler origRemoveHandler channel reg = reg \<and>
      (ipcMain_removeHandler origRemoveHandler channel ^^ n) reg = reg \<and>
      (webContents_ipc_removeHandler origRemoveHandler channel ^^ n) reg = reg \<and>
      (\<exists>override\<in>set (map snd FORCE_OVERRIDES).
         (ipcMain_removeHandler origRemoveHandler channel ^^ n)
            (ipcMain_handle origHandle channel handler reg) = origHandle channel override reg \<and>
         (webContents_ipc_removeHandler origRemoveHandler channel ^^ n)
            (webContents_ipc_handle origHandle channel handler reg) =
              origHandle channel override reg)) \<and>
   (\<not> (\<exists>pattern\<in>set (map fst FORCE_OVERRIDES). str_includes channel pattern) \<longrightarrow>
      ipcMain_removeHandler origRemoveHandler channel reg = origRemoveHandler channel reg \<and>
      webContents_ipc_removeHandler origRemoveHandler channel reg =
        origRemoveHandler channel reg)"
proof -
  let ?m = "\<exists>pattern\<in>set (map fst FORCE_OVERRIDES). str_includes channel pattern"
  have noop: "ipcMain_removeHandler origRemoveHandler channel r = r"
    "webContents_ipc_removeHandler origRemoveHandler channel r = r" if ?m for r
    using that
    by (simp_all add: ipcMain_removeHandler_def webContents_ipc_removeHandler_def list_ex_iff)
  have it: "(ipcMain_removeHandler origRemoveHandler channel ^^ k) r = r"
    "(webContents_ipc_removeHandler origRemoveHandler channel ^^ k) r = r" if ?m for r k
    using noop [OF that] by (induction k) simp_all
  have reg: "\<exists>override\<in>set (map snd FORCE_OVERRIDES).
         (ipcMain_removeHandler origRemoveHandler channel ^^ n)
            (ipcMain_handle origHandle channel handler reg) = origHandle channel override reg \<and>
         (webContents_ipc_removeHandler origRemoveHandler channel ^^ n)
            (webContents_ipc_handle origHandle channel handler reg) =
              origHandle channel override reg" if ?m
  proof -
    from that obtain ov where ov: "first_match FORCE_OVERRIDES channel = Some ov"
      using first_match_Some_iff [of FORCE_OVERRIDES channel] by auto
    from first_match_in [OF this] obtain p where "(p, ov) \<in> set FORCE_OVERRIDES" by auto
    then have "ov \<in> set (map snd FORCE_OVERRIDES)" by force
    moreover have "ipcMain_handle origHandle channel handler reg = origHandle channel ov reg"
      "webContents_ipc_handle origHandle channel handler reg = origHandle channel ov reg"
      using ov by (simp_all add: ipcMain_handle_def webContents_ipc_handle_def)
    ultimately show ?thesis using it [OF that] by auto
  qed
  have pass: "ipcMain_removeHandler origRemoveHandler channel reg = origRemoveHandler channel reg"
      "webContents_ipc_removeHandler origRemoveHandler channel reg = origRemoveHandler channel reg"
    if "\<not> ?m"
    using that
    by (simp_all add: ipcMain_removeHandler_def webContents_ipc_removeHandler_def list_ex_iff)
  show ?thesis using noop it reg pass by blast
qed

theorem removeHandler_keeps_overrides_witness:
  "(\<exists>pattern\<in>set (map fst FORCE_OVERRIDES). str_includes demo_override_channel pattern) \<and>
   (ipcMain_removeHandler reg_removeHandler demo_override_channel ^^ 3)
      (ipcMain_handle reg_handle demo_override_channel demo_guest_handler Map.empty)
      demo_override_channel = Some getSupportedFeatures_override \<and>
   \<not> (\<exists>pattern\<in>set (map fst FORCE_OVERRIDES). str_includes demo_plain_channel pattern) \<and>
   ipcMain_removeHandler reg_removeHandler demo_plain_channel
      (ipcMain_handle reg_handle demo_plain_channel demo_guest_handler Map.empty)
      demo_plain_channel = None"
proof -
  have h1: "\<exists>pattern\<in>set (map fst FORCE_OVERRIDES). str_includes demo_override_channel pattern"
    by (simp add: FORCE_OVERRIDES_def demo_override_channel_def)
  have h2: "\<not> (\<exists>pattern\<in>set (map fst FORCE_OVERRIDES). str_includes demo_plain_channel pattern)"
    by (simp add: FORCE_OVERRIDES_def demo_plain_channel_def)
  have r1: "ipcMain_handle reg_handle demo_override_channel demo_guest_handler Map.empty
              demo_override_channel = Some getSupportedFeatures_override"
    by (simp add: ipcMain_handle_def FORCE_OVERRIDES_def demo_override_channel_def reg_handle_def)
  have "(ipcMain_removeHandler reg_removeHandler demo_override_channel ^^ 3)
          (ipcMain_handle reg_handle demo_override_channel demo_guest_handler Map.empty) =
        ipcMain_handle reg_handle demo_override_channel demo_guest_handler Map.empty"
    using h1 removeHandler_keeps_overrides
      [of demo_override_channel reg_removeHandler
          "ipcMain_handle reg_handle demo_override_channel demo_guest_handler Map.empty" 3]
    by blast
  moreover have "ipcMain_removeHandler reg_removeHandler demo_plain_channel
      (ipcMain_handle reg_handle demo_plain_channel demo_guest_handler Map.empty) =
      reg_removeHandler demo_plain_channel
      (ipcMain_handle reg_handle demo_plain_channel demo_guest_handler Map.empty)"
    using h2 removeHandler_keeps_overrides
      [of demo_plain_channel reg_removeHandler
          "ipcMain_handle reg_handle demo_plain_channel demo_guest_handler Map.empty"]
    by blast
  ultimately show ?thesis using h1 h2 r1 by (simp add: reg_removeHandler_def)
qed



text \<open>
  C10. In \<open>fs.rename\<close>, once the copy has completed (the write stream
  closes), the callback is called once, with \<open>null\<close>, whatever the unlink of
  the source reports. With an unlink that fails, the move reports success
  while the source is still there beside the destination.
\<close>

theorem rename_callback_ignores_unlink_error:
  "(originalRename api oldPath newPath s = (Some err, sa) \<and> code err = Some ''EXDEV'' \<and>
      pipeStreams api oldPath newPath sa = ([Close], sb) \<longrightarrow>
      rename api oldPath newPath s = ([None], snd (unlink api oldPath sb))) \<and>
   (m oldPath = Some content \<longrightarrow>
      fst (failing_unlink e oldPath (m(newPath \<mapsto> content))) = Some e \<and>
      rename (mem_api (failing_mv EXDEV) (failing_unlink e)) oldPath newPath m =
        ([None], m(newPath \<mapsto> content)) \<and>
      (m(newPath \<mapsto> content)) oldPath = Some content \<and>
      (m(newPath \<mapsto> content)) newPath = Some content)"
  by (auto simp: rename_def mem_pipe_def failing_mv_def failing_unlink_def EXDEV_def split: prod.splits)

theorem rename_callback_ignores_unlink_error_witness:
  "originalRename api_cross_device_no_unlink demo_src demo_dst demo_fs = (Some EXDEV, demo_fs) \<and>
   code EXDEV = Some ''EXDEV'' \<and>
   pipeStreams api_cross_device_no_unlink demo_src demo_dst demo_fs = ([Close], demo_copied_fs) \<and>
   unlink api_cross_device_no_unlink demo_src demo_copied_fs = (Some EPERM, demo_copied_fs) \<and>
   rename api_cross_device_no_unlink demo_src demo_dst demo_fs = ([None], demo_copied_fs) \<and>
   demo_copied_fs demo_src = Some ''rootfs'' \<and>
   demo_copied_fs demo_dst = Some ''rootfs'' \<and>
   demo_fs demo_src = Some ''rootfs'' \<and>
   rename (mem_api (failing_mv EXDEV) (failing_unlink EPERM)) demo_src demo_dst demo_fs =
     ([None], demo_fs(demo_dst \<mapsto> ''rootfs''))"
proof -
  have a: "originalRename api_cross_device_no_unlink demo_src demo_dst demo_fs =
             (Some EXDEV, demo_fs)"
    and b: "code EXDEV = Some ''EXDEV''"
    and c: "pipeStreams api_cross_device_no_unlink demo_src demo_dst demo_fs =
             ([Close], demo_copied_fs)"
    and d: "unlink api_cross_device_no_unlink demo_src demo_copied_fs =
             (Some EPERM, demo_copied_fs)"
    by (simp_all add: api_cross_device_no_unlink_def failing_mv_def failing_unlink_def EXDEV_def
        mem_pipe_def demo_copied_fs_def demo_fs_def)
  have e: "demo_copied_fs demo_src = Some ''rootfs''"
    and e': "demo_copied_fs demo_dst = Some ''rootfs''"
    and f: "demo_fs demo_src = Some ''rootfs''"
    using demo_paths_differ by (simp_all add: demo_copied_fs_def demo_fs_def)
  have "rename api_cross_device_no_unlink demo_src demo_dst demo_fs =
          ([None], snd (unlink api_cross_device_no_unlink demo_src demo_copied_fs))"
    by (rule rename_callback_ignores_unlink_error
          [where api = api_cross_device_no_unlink and oldPath = demo_src and newPath = demo_dst
             and s = demo_fs and sa = demo_fs and err = EXDEV and sb = demo_copied_fs,
           THEN conjunct1, THEN mp])
       (intro conjI a b c)
  then have r: "rename api_cross_device_no_unlink demo_src demo_dst demo_fs =
                  ([None], demo_copied_fs)"
    by (simp add: d)
  have r': "rename (mem_api (failing_mv EXDEV) (failing_unlink EPERM)) demo_src demo_dst demo_fs =
     ([None], demo_fs(demo_dst \<mapsto> ''rootfs''))"
    by (rule rename_callback_ignores_unlink_error
          [where oldPath = demo_src and newPath = demo_dst and m = demo_fs
             and content = "''rootfs''" and e = EPERM,
           THEN conjunct2, THEN mp, THEN conjunct2, THEN conjunct1])
       (rule f)
  show ?thesis by (intro conjI a b c d r e e' f r')
qed

text \<open>
  C7. A request that matches no substitution (not a \<open>swift_addon\<close> \<open>.node\<close>
  file, not a \<open>claude-native-binding\<close> \<open>.node\<close> file, not \<open>electron\<close> once it
  is patched) goes to the original loader. For a \<open>swift_addon\<close> \<open>.node\<close>
  request with an empty cache and the stub on disk, the stub is loaded through
  the original loader and, being an object (truthy), cached; then, after any
  further sequence of
  requests, a \<open>swift_addon\<close> \<open>.node\<close> request returns the same module and
  leaves the loader and the host untouched: the original loader, and with it
  the stub's initialization, is not run again.
\<close>

theorem module_load_substitution:
  "(\<not> loadingStub st \<and>
    \<not> (str_includes request ''swift_addon'' \<and> endsWith request ''.node'') \<and>
    \<not> (str_includes request ''claude-native-binding'' \<and> endsWith request ''.node'') \<and>
    \<not> (request = ''electron'' \<and> patchedElectron st \<noteq> None) \<longrightarrow>
      Module_load env request st w =
        (fst (originalLoad env request w), st, snd (originalLoad env request w))) \<and>
   (\<not> loadingStub st \<and> swiftStubCache st = None \<and> 
    str_includes request ''swift_addon'' \<and> endsWith request ''.node'' \<and>
    existsSync env (STUB_PATH env) w \<and>
    originalLoad env (STUB_PATH env) (uncache env (STUB_PATH env) w) = (Inr m, wa) \<and> mod_truthy m \<and>
    Module_load env request st w = (res, sa, wb) \<and>
    load_requests env later sa wb = (ress, sb, wc) \<and>
    str_includes again ''swift_addon'' \<and> endsWith again ''.node'' \<longrightarrow>
      res = Inr m \<and> wb = wa \<and> swiftStubCache sa = Some m \<and>
      Module_load env again sb wc = (Inr m, sb, wc))"
proof -
  have a: "Module_load env request st w =
        (fst (originalLoad env request w), st, snd (originalLoad env request w))"
    if "\<not> loadingStub st"
    "\<not> (str_includes request ''swift_addon'' \<and> endsWith request ''.node'')"
    "\<not> (str_includes request ''claude-native-binding'' \<and> endsWith request ''.node'')"
    "\<not> (request = ''electron'' \<and> patchedElectron st \<noteq> None)"
    using that by (auto simp: Module_load_def split: prod.splits option.splits)
  have b: "res = Inr m \<and> wb = wa \<and> swiftStubCache sa = Some m \<and>
      Module_load env again sb wc = (Inr m, sb, wc)"
    if h: "\<not> loadingStub st" "swiftStubCache st = None"
    "str_includes request ''swift_addon''" "endsWith request ''.node''"
    "existsSync env (STUB_PATH env) w"
    "originalLoad env (STUB_PATH env) (uncache env (STUB_PATH env) w) = (Inr m, wa)" "mod_truthy m"
    "Module_load env request st w = (res, sa, wb)"
    "load_requests env later sa wb = (ress, sb, wc)"
    "str_includes again ''swift_addon''" "endsWith again ''.node''"
  proof -
    have first: "res = Inr m" "wb = wa" "sa = st\<lparr>swiftStubCache := Some m, loadingStub := False\<rparr>"
      using h(1-6,8) by (auto simp: Module_load_def loadSwiftStub_def cached_stub_def)
    then have inv: "swiftStubCache sa = Some m" "\<not> loadingStub sa" by simp_all
    from load_requests_keep_cache [OF inv(1) h(7) inv(2) h(9)]
    have "swiftStubCache sb = Some m" "\<not> loadingStub sb" by auto
    then have "Module_load env again sb wc = (Inr m, sb, wc)"
      using h(7,10,11) by (simp add: Module_load_def loadSwiftStub_cached)
    with first inv show ?thesis by simp
  qed
  show ?thesis using a b by blast
qed

theorem module_load_substitution_witness:
  "\<not> loadingStub initial_loader_state \<and>
   \<not> (str_includes ''nativeWidget.bin'' ''swift_addon'' \<and> endsWith ''nativeWidget.bin'' ''.node'') \<and>
   \<not> (str_includes ''nativeWidget.bin'' ''claude-native-binding'' \<and> endsWith ''nativeWidget.bin'' ''.node'') \<and>
   \<not> (''nativeWidget.bin'' = ''electron'' \<and> patchedElectron initial_loader_state \<noteq> None) \<and>
   Module_load demo_env ''nativeWidget.bin'' initial_loader_state 0 =
     (fst (originalLoad demo_env ''nativeWidget.bin'' 0), initial_loader_state,
      snd (originalLoad demo_env ''nativeWidget.bin'' 0)) \<and>
   swiftStubCache initial_loader_state = None \<and>
   str_includes ''swift_addon.node'' ''swift_addon'' \<and> endsWith ''swift_addon.node'' ''.node'' \<and>
   existsSync demo_env (STUB_PATH demo_env) 0 \<and>
   originalLoad demo_env (STUB_PATH demo_env) (uncache demo_env (STUB_PATH demo_env) 0)
     = (Inr (ModObject 0), 1) \<and>
   mod_truthy (ModObject 0) \<and>
   Module_load demo_env ''swift_addon.node'' initial_loader_state 0 =
     (Inr (ModObject 0), demo_loaded_state, 1) \<and>
   load_requests demo_env [''nativeWidget.bin'', ''swift_addon.node''] demo_loaded_state 1 =
     ([Inr (ModObject 1), Inr (ModObject 0)], demo_loaded_state, 2) \<and>
   Module_load demo_env ''swift_addon.node'' demo_loaded_state 2 =
     (Inr (ModObject 0), demo_loaded_state, 2)"
proof -
  have h: "\<not> loadingStub initial_loader_state"
    "\<not> (str_includes ''nativeWidget.bin'' ''swift_addon'' \<and> endsWith ''nativeWidget.bin'' ''.node'')"
    "\<not> (str_includes ''nativeWidget.bin'' ''claude-native-binding'' \<and> endsWith ''nativeWidget.bin'' ''.node'')"
    "\<not> (''nativeWidget.bin'' = ''electron'' \<and> patchedElectron initial_loader_state \<noteq> None)"
    "swiftStubCache initial_loader_state = None"
    "str_includes ''swift_addon.node'' ''swift_addon''" "endsWith ''swift_addon.node'' ''.node''"
    "existsSync demo_env (STUB_PATH demo_env) 0"
    "originalLoad demo_env (STUB_PATH demo_env) (uncache demo_env (STUB_PATH demo_env) 0)
       = (Inr (ModObject 0), 1)"
    "mod_truthy (ModObject 0)"
    by (simp_all add: initial_loader_state_def endsWith_def suffix_to_prefix demo_env_def)
  have p: "Module_load demo_env ''nativeWidget.bin'' initial_loader_state 0 =
     (fst (originalLoad demo_env ''nativeWidget.bin'' 0), initial_loader_state,
      snd (originalLoad demo_env ''nativeWidget.bin'' 0))"
    by (rule module_load_substitution [where st = initial_loader_state and request = "''nativeWidget.bin''"
          and env = demo_env and w = 0, THEN conjunct1, THEN mp])
       (intro conjI h)
  have q: "Inr (ModObject 0) = (Inr (ModObject 0) :: jserr + modval) \<and> (1::nat) = 1 \<and>
      swiftStubCache demo_loaded_state = Some (ModObject 0) \<and>
      Module_load demo_env ''swift_addon.node'' demo_loaded_state 2 =
        (Inr (ModObject 0), demo_loaded_state, 2)"
    by (rule module_load_substitution [where st = initial_loader_state and request = "''swift_addon.node''"
          and env = demo_env and w = 0 and m = "ModObject 0" and wa = 1
          and res = "Inr (ModObject 0)" and sa = demo_loaded_state and wb = 1
          and later = "[''nativeWidget.bin'', ''swift_addon.node'']"
          and ress = "[Inr (ModObject 1), Inr (ModObject 0)]" and sb = demo_loaded_state
          and wc = 2 and again = "''swift_addon.node''", THEN conjunct2, THEN mp])
       (intro conjI h demo_first_load demo_later_loads)
  from q have r: "Module_load demo_env ''swift_addon.node'' demo_loaded_state 2 =
        (Inr (ModObject 0), demo_loaded_state, 2)" by (elim conjE)
  show ?thesis by (intro conjI h p r demo_first_load demo_later_loads)
qed




text \<open>
  C9, as the code has it. An error whose message contains
  \<open>is not a function\<close> or \<open>No handler registered\<close> is logged and
  suppressed; every other error, also one without a message, is thrown again.
\<close>

theorem uncaught_guard_by_message:
  "(message error = Some m \<and>
      (str_includes m ''is not a function'' \<or> str_includes m ''No handler registered'') \<longrightarrow>
        uncaughtException_handler error = Suppressed m) \<and>
   ((\<forall>m. message error = Some m \<longrightarrow>
        \<not> str_includes m ''is not a function'' \<and> \<not> str_includes m ''No handler registered'') \<longrightarrow>
        uncaughtException_handler error = Rethrown error)"
  by (auto simp: uncaughtException_handler_def split: option.splits)

theorem uncaught_guard_by_message_witness:
  "message demo_no_handler_error = Some ''Error: No handler registered for list'' \<and>
   (str_includes ''Error: No handler registered for list'' ''is not a function'' \<or>
    str_includes ''Error: No handler registered for list'' ''No handler registered'') \<and>
   uncaughtException_handler demo_no_handler_error =
     Suppressed ''Error: No handler registered for list'' \<and>
   message demo_other_error = Some ''no space left on device'' \<and>
   \<not> str_includes ''no space left on device'' ''is not a function'' \<and>
   \<not> str_includes ''no space left on device'' ''No handler registered'' \<and>
   uncaughtException_handler demo_other_error = Rethrown demo_other_error"
proof -
  have g1: "message demo_other_error = Some ''no space left on device''"
    and g2: "\<not> str_includes ''no space left on device'' ''is not a function''"
    and g3: "\<not> str_includes ''no space left on device'' ''No handler registered''"
    by (simp_all add: demo_other_error_def)
  have h1: "message demo_no_handler_error = Some ''Error: No handler registered for list''"
    by (simp add: demo_no_handler_error_def)
  have h2: "str_includes ''Error: No handler registered for list'' ''is not a function'' \<or>
    str_includes ''Error: No handler registered for list'' ''No handler registered''"
    by simp
  have h3: "\<forall>m. message demo_other_error = Some m \<longrightarrow>
        \<not> str_includes m ''is not a function'' \<and> \<not> str_includes m ''No handler registered''"
    by (simp add: demo_other_error_def)
  have a: "uncaughtException_handler demo_no_handler_error =
     Suppressed ''Error: No handler registered for list''"
    by (rule uncaught_guard_by_message [where error = demo_no_handler_error, THEN conjunct1, THEN mp])
       (intro conjI h1 h2)
  have b: "uncaughtException_handler demo_other_error = Rethrown demo_other_error"
    by (rule uncaught_guard_by_message [where error = demo_other_error, THEN conjunct2, THEN mp]) (rule h3)
  show ?thesis by (intro conjI h1 h2 a g1 g2 g3 b)
qed

text \<open>
  C9 as stated fails in both directions: a message with the substrings
  \<open>missing handler\<close> and \<open>not a function\<close> is thrown again, and Electron's
  \<open>No handler registered for ...\<close>, which has neither, is suppressed.
\<close>

theorem uncaught_guard_counterexample:
  "str_includes ''missing handler: x not a function'' ''not a function'' \<and>
   str_includes ''missing handler: x not a function'' ''missing handler'' \<and>
   uncaughtException_handler demo_missing_handler_error = Rethrown demo_missing_handler_error \<and>
   \<not> str_includes ''Error: No handler registered for list'' ''not a function'' \<and>
   \<not> str_includes ''Error: No handler registered for list'' ''missing handler'' \<and>
   uncaughtException_handler demo_no_handler_error =
     Suppressed ''Error: No handler registered for list''"
  by (simp add: uncaughtException_handler_def demo_missing_handler_error_def
      demo_no_handler_error_def)

end
